theory Spec2Isabelle
  imports Main
begin

section \<open>Python values, errors and log records\<close>

text \<open>
  The extraction layer of the WARN scraper is Python on top of pandas, openpyxl, camelot
  and lxml.  Strings are \<^typ>\<open>string\<close>; a null cell (\<open>None\<close>, \<open>NaN\<close>) is \<^term>\<open>None\<close>.
  An exception that leaves a function is a value \<open>Inl e\<close> of the result; what the
  \<open>logging\<close> module receives is returned as a list of records, oldest first.
\<close>

datatype pyerror =
    IndexError | KeyError | TypeError | ValueError | AttributeError
  | XMLSyntaxError | InvalidIndexError | OSError | AssertionError | XPathEvalError

datatype pyobj = PyStr string | PyNaN | PyNone | PyBool bool

datatype log_event =
    Could_not_convert pyobj
  | No_link_in_column int
  | Dropping_table nat nat
  | Column_list_mismatch
  | No_tables_in_pdf
  | Read_html_failed pyerror
  | Concat_failed pyerror
  | No_tables_in_url
  | No_table_rows
  | No_table_found
  | No_link_in_row

datatype log_record = Warning log_event | Error log_event

subsection \<open>modules/utils.py: string cleaning\<close>

text \<open>
  \<open>str(x)\<close> for the values a configuration cell can hold; any other object enters
  \<open>to_bool\<close> only through its \<open>str\<close>, as \<open>PyStr\<close> of that string does.
\<close>

fun str :: "pyobj \<Rightarrow> string" where
  "str (PyStr s) = s"
| "str PyNaN = ''nan''"
| "str PyNone = ''None''"
| "str (PyBool b) = (if b then ''True'' else ''False'')"

text \<open>
  A character is a code point below 256.  \<open>str.lower\<close> on the ASCII letters (Python
  lowers by code point; no character outside ASCII lowers to one of the letters of the
  words \<open>to_bool\<close> compares with), and \<open>str.upper\<close> on the ASCII letters and on the
  Latin-1 letters \<open>0xe0\<close> to \<open>0xfe\<close> but \<open>0xf7\<close>; the three letters whose upper case lies
  beyond 255 (\<open>0xb5\<close>, \<open>0xdf\<close>, \<open>0xff\<close>) are kept.
\<close>

definition lower_char :: "char \<Rightarrow> char" where
  "lower_char c = (let n = (of_char c :: nat) in if 65 \<le> n \<and> n \<le> 90 then char_of (n + 32) else c)"

definition upper_char :: "char \<Rightarrow> char" where
  "upper_char c =
     (let n = (of_char c :: nat)
      in if (97 \<le> n \<and> n \<le> 122) \<or> (224 \<le> n \<and> n \<le> 254 \<and> n \<noteq> 247) then char_of (n - 32) else c)"

definition lower :: "string \<Rightarrow> string" where
  "lower s = map lower_char s"

definition upper :: "string \<Rightarrow> string" where
  "upper s = map upper_char s"

definition to_bool :: "pyobj \<Rightarrow> bool option \<times> log_record list" where
  "to_bool x =
     (let s = lower (str x) in
      if s \<in> set [''yes'', ''y'', ''true'', ''t''] then (Some True, [])
      else if s \<in> set [''no'', ''n'', ''false'', ''f''] then (Some False, [])
      else if s \<in> set ['''', ''nan'', ''none''] then (None, [])
      else (None, [Warning (Could_not_convert x)]))"

text \<open>
  \<open>str.split()\<close> without a separator splits at runs of whitespace and drops empty words;
  \<open>str.strip()\<close> removes whitespace at both ends.  The whitespace characters below 256
  are tab, line feed, vertical tab, form feed, carriage return, the four separators
  \<open>0x1c\<close> to \<open>0x1f\<close>, the space, next line (\<open>0x85\<close>) and the no-break space (\<open>0xa0\<close>).
\<close>

definition is_space :: "char \<Rightarrow> bool" where
  "is_space c =
     (let n = (of_char c :: nat)
      in (9 \<le> n \<and> n \<le> 13) \<or> (28 \<le> n \<and> n \<le> 32) \<or> n = 133 \<or> n = 160)"

fun split_words :: "string \<Rightarrow> string \<Rightarrow> string list" where
  "split_words w [] = (if w = [] then [] else [w])"
| "split_words w (c # cs) =
     (if is_space c then (if w = [] then [] else [w]) @ split_words [] cs
      else split_words (w @ [c]) cs)"

definition split :: "string \<Rightarrow> string list" where
  "split s = split_words [] s"

fun join :: "string \<Rightarrow> string list \<Rightarrow> string" where
  "join sep [] = []"
| "join sep [w] = w"
| "join sep (w # ws) = w @ sep @ join sep ws"

definition strip :: "string \<Rightarrow> string" where
  "strip s = rev (dropWhile is_space (rev (dropWhile is_space s)))"

text \<open>\<open>whitespace_to_singlespace(s)\<close> is \<open>" ".join(str(s).split())\<close>.\<close>

definition whitespace_to_singlespace :: "string \<Rightarrow> string" where
  "whitespace_to_singlespace s = join '' '' (split s)"

text \<open>\<open>str\<close> of a cell that holds text or nothing.\<close>

definition str_cell :: "string option \<Rightarrow> string" where
  "str_cell c = (case c of None \<Rightarrow> ''None'' | Some s \<Rightarrow> s)"

text \<open>
  \<open>get_text_of_matching_elements_lxml\<close>: the \<open>string(.)\<close> value of every matching element,
  passed through \<open>re.sub('', '', d)\<close> (which changes nothing) and stripped.  The argument
  is the list of those string values.
\<close>

definition get_text_of_matching_elements_lxml :: "string list \<Rightarrow> string list" where
  "get_text_of_matching_elements_lxml ds = map strip ds"

section \<open>pandas: the DataFrame operations the extractors use\<close>

text \<open>
  A DataFrame is its column labels and its rows, each row the index label and one cell per
  column; a null cell is \<^term>\<open>None\<close>.  Labels may repeat.
\<close>

record 'v dataframe =
  columns :: "string list"
  rows :: "(int \<times> 'v option list) list"

definition empty_df :: "'v dataframe" where
  "empty_df = \<lparr>columns = [], rows = []\<rparr>"

definition wf_df :: "'v dataframe \<Rightarrow> bool" where
  "wf_df df \<longleftrightarrow> list_all (\<lambda>r. length (snd r) = length (columns df)) (rows df)"

text \<open>Boolean-mask selection: \<open>df.loc[:, mask]\<close> for columns and \<open>df[mask]\<close> for rows.\<close>

definition select :: "bool list \<Rightarrow> 'a list \<Rightarrow> 'a list" where
  "select m xs = map snd (filter fst (zip m xs))"

definition take_columns :: "bool list \<Rightarrow> 'v dataframe \<Rightarrow> 'v dataframe" where
  "take_columns m df =
     \<lparr>columns = select m (columns df), rows = map (\<lambda>r. (fst r, select m (snd r))) (rows df)\<rparr>"

definition take_rows :: "(int \<times> 'v option list \<Rightarrow> bool) \<Rightarrow> 'v dataframe \<Rightarrow> 'v dataframe" where
  "take_rows keep df = \<lparr>columns = columns df, rows = filter keep (rows df)\<rparr>"

text \<open>\<open>.any()\<close> of a boolean frame, per column and (after \<open>.T\<close>) per row.\<close>

definition any_in_column :: "('v option \<Rightarrow> bool) \<Rightarrow> 'v dataframe \<Rightarrow> bool list" where
  "any_in_column P df = map (\<lambda>j. \<exists>r \<in> set (rows df). P (snd r ! j)) [0..<length (columns df)]"

definition any_in_row :: "('v option \<Rightarrow> bool) \<Rightarrow> int \<times> 'v option list \<Rightarrow> bool" where
  "any_in_row P r \<longleftrightarrow> (\<exists>c \<in> set (snd r). P c)"

definition notna :: "'v option \<Rightarrow> bool" where
  "notna c \<longleftrightarrow> c \<noteq> None"

text \<open>\<open>df.ne(v)\<close>, \<open>df != v\<close>: a null cell differs from every value.\<close>

definition ne :: "'v \<Rightarrow> 'v option \<Rightarrow> bool" where
  "ne v c \<longleftrightarrow> c \<noteq> Some v"

text \<open>\<open>df.dropna(axis, how='all')\<close>: axis 0 drops the rows, axis 1 the columns, that hold only nulls.\<close>

definition dropna :: "nat \<Rightarrow> 'v dataframe \<Rightarrow> 'v dataframe" where
  "dropna axis df =
     (if axis = 0 then take_rows (any_in_row notna) df
      else take_columns (any_in_column notna df) df)"

definition fill :: "'v \<Rightarrow> 'v option \<Rightarrow> 'v option" where
  "fill v c = (case c of None \<Rightarrow> Some v | Some x \<Rightarrow> Some x)"

definition fillna :: "'v \<Rightarrow> 'v dataframe \<Rightarrow> 'v dataframe" where
  "fillna v df = \<lparr>columns = columns df, rows = map (\<lambda>r. (fst r, map (fill v) (snd r))) (rows df)\<rparr>"

subsection \<open>modules/datatodf.py: drop_empty_rows_cols\<close>

text \<open>
  The two \<open>dropna\<close> calls work in place and the later steps rebind \<open>df\<close>; the model
  follows the frame that is returned.
\<close>

definition drop_empty_rows_cols :: "string dataframe \<Rightarrow> string dataframe" where
  "drop_empty_rows_cols df0 =
     (let df1 = dropna 0 df0;
          df2 = dropna 1 df1;
          df3 = fillna '''' df2;
          df4 = take_columns (any_in_column (ne '''') df3) df3;
          df5 = take_rows (any_in_row (ne '''')) df4
      in df5)"

text \<open>
  What the Cleaner is to compute, in the words of its description: a cell has text when it
  is neither null nor the empty string; the columns and the rows that hold a cell with text
  are retained, in their order, and the nulls that remain read as the empty string.
\<close>

definition has_text :: "string option \<Rightarrow> bool" where
  "has_text c \<longleftrightarrow> c \<noteq> None \<and> c \<noteq> Some ''''"

definition cleaned :: "string dataframe \<Rightarrow> string dataframe" where
  "cleaned df =
     \<lparr>columns = select (any_in_column has_text df) (columns df),
      rows = map (\<lambda>r. (fst r, select (any_in_column has_text df) (map (fill '''') (snd r))))
               (filter (any_in_row has_text) (rows df))\<rparr>"

definition example_raw_table :: "string dataframe" where
  "example_raw_table =
     \<lparr>columns = [''Company'', ''Notes'', ''Date''],
      rows = [(0, [Some ''Acme'', None, Some '''']),
              (1, [None, None, None]),
              (2, [Some '''', None, Some ''2020-01-01'']),
              (3, [Some '''', Some '''', None])]\<rparr>"

subsection \<open>Python lists and pandas labels\<close>

text \<open>\<open>range(a, b)\<close>; indexing \<open>xs[i]\<close> and \<open>df.iloc[i]\<close>, where a negative index counts from the end.\<close>

definition py_range :: "int \<Rightarrow> int \<Rightarrow> int list" where
  "py_range a b = [a..b - 1]"

definition py_index :: "'a list \<Rightarrow> int \<Rightarrow> pyerror + 'a" where
  "py_index xs i =
     (if 0 \<le> i \<and> i < int (length xs) then Inr (xs ! nat i)
      else if i < 0 \<and> - int (length xs) \<le> i then Inr (xs ! nat (int (length xs) + i))
      else Inl IndexError)"

text \<open>
  \<open>pd.DataFrame(rows)\<close>: as many columns as the longest row has cells, shorter rows padded
  with nulls, the rows labelled \<open>0, 1, ...\<close> (camelot and openpyxl deliver rectangular
  grids).  \<open>reset_index\<close> is the relabelling that \<open>ignore_index=True\<close> asks for.
\<close>

definition n_columns :: "'a list list \<Rightarrow> nat" where
  "n_columns g = foldr (\<lambda>r n. max (length r) n) g 0"

definition grid_rows :: "'a list list \<Rightarrow> 'a option list list" where
  "grid_rows g = map (\<lambda>r. map Some r @ replicate (n_columns g - length r) None) g"

definition enumerate_rows :: "'a list \<Rightarrow> (int \<times> 'a) list" where
  "enumerate_rows xs = zip (map int [0..<length xs]) xs"

definition reset_index :: "(int \<times> 'a) list \<Rightarrow> (int \<times> 'a) list" where
  "reset_index rs = enumerate_rows (map snd rs)"

text \<open>\<open>df.drop(labels, axis=0)\<close>: a label that is not in the index is a \<open>KeyError\<close>.\<close>

definition drop_labels :: "int list \<Rightarrow> (int \<times> 'a) list \<Rightarrow> pyerror + (int \<times> 'a) list" where
  "drop_labels labels rs =
     (if \<exists>l \<in> set labels. l \<notin> fst ` set rs then Inl KeyError
      else Inr (filter (\<lambda>r. fst r \<notin> set labels) rs))"

text \<open>
  Aligning a frame to a list of labels: a frame that carries exactly these labels is taken
  as it is; otherwise its rows are reindexed by label, which pandas refuses
  (\<open>InvalidIndexError\<close>, which is not a \<open>ValueError\<close>) for a frame with repeated labels.
\<close>

definition reindex :: "string list \<Rightarrow> string list \<Rightarrow> int \<times> 'v option list \<Rightarrow> int \<times> 'v option list" where
  "reindex old new r =
     (fst r, map (\<lambda>c. case map_of (zip old (snd r)) c of None \<Rightarrow> None | Some v \<Rightarrow> v) new)"

definition conform :: "string list \<Rightarrow> 'v dataframe \<Rightarrow> pyerror + (int \<times> 'v option list) list" where
  "conform cols df =
     (if columns df = cols then Inr (rows df)
      else if distinct (columns df) then Inr (map (reindex (columns df) cols) (rows df))
      else Inl InvalidIndexError)"

fun collect_rows :: "string list \<Rightarrow> 'v dataframe list \<Rightarrow> pyerror + (int \<times> 'v option list) list" where
  "collect_rows cols [] = Inr []"
| "collect_rows cols (f # fs) =
     (case conform cols f of
        Inl e \<Rightarrow> Inl e
      | Inr rs \<Rightarrow> (case collect_rows cols fs of Inl e \<Rightarrow> Inl e | Inr rest \<Rightarrow> Inr (rs @ rest)))"

text \<open>
  \<open>pd.concat(frames, join='inner', ignore_index=True)\<close>: no frame at all is a
  \<open>ValueError\<close>.  One frame keeps its labels.  For several frames the labels are the
  intersection of their label lists, which \<open>Index.intersection\<close> returns without
  repetitions (\<open>unique\<close>, first occurrences; pandas 1.2 and later, releases before keep
  the repeated labels of equal label lists): a frame with repeated labels then has to be
  reindexed, and the concatenation raises \<open>InvalidIndexError\<close>.
\<close>

definition unique :: "'a list \<Rightarrow> 'a list" where
  "unique xs = rev (remdups (rev xs))"


text \<open>
  \<open>a.append(b)\<close> and \<open>pd.concat([a, b])\<close>: the labels of \<open>a\<close>, then those of \<open>b\<close> that \<open>a\<close>
  lacks; the index labels are kept.
\<close>

definition append_df :: "'v dataframe \<Rightarrow> 'v dataframe \<Rightarrow> pyerror + 'v dataframe" where
  "append_df a b =
     (let cols = columns a @ filter (\<lambda>c. c \<notin> set (columns a)) (columns b)
      in case collect_rows cols [a, b] of
           Inl e \<Rightarrow> Inl e
         | Inr rs \<Rightarrow> Inr \<lparr>columns = cols, rows = rs\<rparr>)"

subsection \<open>modules/datatodf.py: pdf\<close>




















subsection \<open>modules/datatodf.py: excel\<close>

text \<open>
  A worksheet as openpyxl presents it: \<open>ws.values\<close> (the cell values row by row, a
  rectangular grid, an empty cell null), \<open>ws.min_row\<close>, \<open>ws.max_row\<close>, and the hyperlink
  targets by (row, column), both counted from 1.  A workbook is its sheets by name.
\<close>

record worksheet =
  ws_values :: "string option list list"
  min_row :: int
  max_row :: int
  hyperlinks :: "((int \<times> int) \<times> string) list"

text \<open>
  \<open>ws.cell(**kwargs).hyperlink.target\<close>.  The signature is
  \<open>cell(self, row, column, value=None)\<close> (\<open>load_xls_as_xlsx\<close> in modules/utils.py calls
  \<open>cell(row=..., column=...)\<close>): a keyword that names no parameter is a \<open>TypeError\<close>, as
  is a missing \<open>row\<close> or \<open>column\<close>; a coordinate below 1 is a \<open>ValueError\<close>; a cell
  without a hyperlink has \<open>hyperlink\<close> \<open>None\<close>, whose \<open>target\<close> is an \<open>AttributeError\<close>.
\<close>

definition cell_hyperlink_target :: "worksheet \<Rightarrow> (string \<times> int) list \<Rightarrow> pyerror + string" where
  "cell_hyperlink_target ws kwargs =
     (if \<exists>k \<in> set (map fst kwargs). k \<notin> set [''row'', ''column'', ''value''] then Inl TypeError
      else case (map_of kwargs ''row'', map_of kwargs ''column'') of
             (Some r, Some c) \<Rightarrow>
               if r < 1 \<or> c < 1 then Inl ValueError
               else (case map_of (hyperlinks ws) (r, c) of
                       None \<Rightarrow> Inl AttributeError
                     | Some target \<Rightarrow> Inr target)
           | _ \<Rightarrow> Inl TypeError)"

text \<open>
  The parameter \<open>link_col\<close> is \<open>None\<close>, a column number or a list of column numbers;
  \<open>link_columns\<close> is the list the loop \<open>for col in link_col\<close> runs over: none when
  \<open>if link_col:\<close> fails (\<open>None\<close>, \<open>0\<close> and the empty list are false).
\<close>

datatype link_col_arg = Col int | Cols "int list"

record excel_params =
  link_col :: "link_col_arg option"
  skip_header :: "int option"
  drop_footer :: "int option"
  sheets_to_use :: "string list option"

definition link_columns :: "link_col_arg option \<Rightarrow> int list" where
  "link_columns lc =
     (case lc of
        None \<Rightarrow> []
      | Some (Col c) \<Rightarrow> if c = 0 then [] else [c]
      | Some (Cols cs) \<Rightarrow> cs)"

text \<open>The dictionary \<open>links\<close> of one column, as the list of its values in key order.\<close>

definition sheet_links :: "worksheet \<Rightarrow> int \<Rightarrow> int \<Rightarrow> int \<Rightarrow> string list \<times> log_record list" where
  "sheet_links ws n_skip n_drop col =
     fold (\<lambda>row_index (links, lg).
             case cell_hyperlink_target ws [(''row'', row_index), (''col'', col)] of
               Inr link \<Rightarrow> (links @ [link], lg)
             | Inl e \<Rightarrow> (links @ [''''], lg @ [Warning (No_link_in_column col)]))
       (py_range (min_row ws + n_skip) (max_row ws - n_drop)) ([], [])"

text \<open>
  \<open>df[name] = values\<close>: as many values as the frame has rows, or a \<open>ValueError\<close>; an
  existing column of that name is overwritten, otherwise the column is added last.
\<close>

definition set_column :: "string \<Rightarrow> 'v option list \<Rightarrow> 'v dataframe \<Rightarrow> pyerror + 'v dataframe" where
  "set_column name vals df =
     (if length vals \<noteq> length (rows df) then Inl ValueError
      else if name \<in> set (columns df) then
        Inr \<lparr>columns = columns df,
             rows = map (\<lambda>(r, v). (fst r, map (\<lambda>(c, x). if c = name then v else x)
                                             (zip (columns df) (snd r))))
                      (zip (rows df) vals)\<rparr>
      else
        Inr \<lparr>columns = columns df @ [name],
             rows = map (\<lambda>(r, v). (fst r, snd r @ [v])) (zip (rows df) vals)\<rparr>)"

text \<open>
  The loop over the link columns.  When the column's name is empty the source replaces it
  by the column number and then adds a string to it, a \<open>TypeError\<close>.
\<close>

fun add_link_columns ::
  "worksheet \<Rightarrow> int \<Rightarrow> int \<Rightarrow> string list \<Rightarrow> int list \<Rightarrow> string dataframe \<times> log_record list \<Rightarrow>
   pyerror + string dataframe \<times> log_record list" where
  "add_link_columns ws n_skip n_drop names [] acc = Inr acc"
| "add_link_columns ws n_skip n_drop names (col # cols) (df, lg) =
     (case py_index names col of
        Inl e \<Rightarrow> Inl e
      | Inr col_name \<Rightarrow>
          if col_name = [] then Inl TypeError
          else (let name = col_name @ '' Link'';
                    (links, lg') = sheet_links ws n_skip n_drop col
                in case set_column name (map Some links) df of
                     Inl e \<Rightarrow> Inl e
                   | Inr df' \<Rightarrow> add_link_columns ws n_skip n_drop names cols (df', lg @ lg')))"

definition excel_sheet ::
  "int \<Rightarrow> int \<Rightarrow> int list \<Rightarrow> worksheet \<Rightarrow> pyerror + string dataframe \<times> log_record list" where
  "excel_sheet n_skip n_drop link_cols ws =
     (let df = ws_values ws
      in case py_index df n_skip of
           Inl e \<Rightarrow> Inl e
         | Inr header \<Rightarrow>
             (let names = map (\<lambda>s. whitespace_to_singlespace (str_cell s)) header;
                  header_rows = py_range 0 (n_skip + 1);
                  footer_rows = py_range (max_row ws - n_drop) (max_row ws)
              in case drop_labels (header_rows @ footer_rows) (enumerate_rows df) of
                   Inl e \<Rightarrow> Inl e
                 | Inr rs \<Rightarrow>
                     add_link_columns ws n_skip n_drop names link_cols
                       (\<lparr>columns = names, rows = rs\<rparr>, [])))"

fun excel_loop ::
  "int \<Rightarrow> int \<Rightarrow> int list \<Rightarrow> worksheet list \<Rightarrow> string dataframe \<times> log_record list \<Rightarrow>
   pyerror + string dataframe \<times> log_record list" where
  "excel_loop n_skip n_drop link_cols [] acc = Inr acc"
| "excel_loop n_skip n_drop link_cols (ws # wss) (df_all, lg) =
     (case excel_sheet n_skip n_drop link_cols ws of
        Inl e \<Rightarrow> Inl e
      | Inr (df, lg') \<Rightarrow>
          (case append_df df_all df of
             Inl e \<Rightarrow> Inl e
           | Inr df_all' \<Rightarrow> excel_loop n_skip n_drop link_cols wss (df_all', lg @ lg')))"

text \<open>\<open>[wb[i] for i in sheets_to_use]\<close>: a name that the workbook lacks is a \<open>KeyError\<close>.\<close>

fun sheets_named :: "(string \<times> worksheet) list \<Rightarrow> string list \<Rightarrow> pyerror + worksheet list" where
  "sheets_named wb [] = Inr []"
| "sheets_named wb (i # is) =
     (case map_of wb i of
        None \<Rightarrow> Inl KeyError
      | Some ws \<Rightarrow> (case sheets_named wb is of Inl e \<Rightarrow> Inl e | Inr wss \<Rightarrow> Inr (ws # wss)))"

definition excel ::
  "excel_params \<Rightarrow> (string \<times> worksheet) list \<Rightarrow> pyerror + string dataframe \<times> log_record list" where
  "excel p wb =
     (let n_skip = (case skip_header p of None \<Rightarrow> 0 | Some n \<Rightarrow> n);
          n_drop = (case drop_footer p of None \<Rightarrow> 0 | Some n \<Rightarrow> n);
          worksheets = (case sheets_to_use p of
                          None \<Rightarrow> Inr (map snd wb)
                        | Some names \<Rightarrow> if names = [] then Inr (map snd wb) else sheets_named wb names)
      in case worksheets of
           Inl e \<Rightarrow> Inl e
         | Inr wss \<Rightarrow> excel_loop n_skip n_drop (link_columns (link_col p)) wss (empty_df, []))"

definition example_sheet :: worksheet where
  "example_sheet =
     \<lparr>ws_values = [[Some ''WARN notices'', None],
                   [Some ''Company'', Some ''Notice''],
                   [Some ''Acme'', Some ''letter''],
                   [Some ''Bolt'', Some ''letter''],
                   [Some ''2 notices'', None]],
      min_row = 1, max_row = 5,
      hyperlinks = [((3, 2), ''http://example.org/acme.pdf''), ((4, 2), ''http://example.org/bolt.pdf'')]\<rparr>"

definition example_link_sheet :: worksheet where
  "example_link_sheet =
     \<lparr>ws_values = [[Some ''Company'', Some ''Notice''],
                   [Some ''Acme'', Some ''letter'']],
      min_row = 1, max_row = 2,
      hyperlinks = [((2, 2), ''http://example.org/acme.pdf'')]\<rparr>"

subsection \<open>config.py: StateConfig\<close>

text \<open>
  \<open>key.endswith(suffix)\<close>, and \<open>re.sub(pattern, '', key)\<close> for a pattern that is plain text:
  every occurrence, found from the left and not overlapping, is removed.
\<close>

definition endswith :: "string \<Rightarrow> string \<Rightarrow> bool" where
  "endswith s suffix \<longleftrightarrow> length suffix \<le> length s \<and> drop (length s - length suffix) s = suffix"

function remove_all :: "string \<Rightarrow> string \<Rightarrow> string" where
  "remove_all pat [] = []"
| "remove_all pat (c # cs) =
     (if pat \<noteq> [] \<and> take (length pat) (c # cs) = pat
      then remove_all pat (drop (length pat) (c # cs))
      else c # remove_all pat cs)"
  by pat_completeness auto
termination
  by (relation "measure (\<lambda>(pat, s). length s)") auto

text \<open>
  \<open>StateConfig.FIELDS\<close>: the dictionary comprehension over the items of the configuration
  row keeps the keys that end in \<open>_field\<close>; a later item with the same resulting key
  replaces the earlier value.
\<close>

definition FIELDS :: "(string \<times> 'a) list \<Rightarrow> (string \<rightharpoonup> 'a)" where
  "FIELDS row =
     fold (\<lambda>(key, value) d.
             if endswith key ''_field'' then d(upper (remove_all ''_field'' key) \<mapsto> value) else d)
       row Map.empty"

subsection \<open>modules/items.py and the item loop of WARNSpider.parse_as_df\<close>

text \<open>
  Modelled from the spec: modules/items.py, which defines \<open>get_normalized_fields\<close> and the
  item class \<open>Entry\<close>, is not among the sources; the spiders only import and call them.
  The spec's Field Normalizer: for each mapping entry whose raw name exists in the row, the
  value is copied under the canonical name; a raw name absent from the row is skipped.
  The mapping is \<open>StateConfig.FIELDS\<close>, from canonical name to raw name; the row is a
  dictionary from raw column name to cell.
\<close>

definition get_normalized_fields :: "(string \<rightharpoonup> string) \<Rightarrow> (string \<rightharpoonup> 'c) \<Rightarrow> (string \<rightharpoonup> 'c)" where
  "get_normalized_fields fields_dict row =
     (\<lambda>canonical. case fields_dict canonical of None \<Rightarrow> None | Some raw \<Rightarrow> row raw)"

text \<open>
  \<open>row.to_dict()\<close> of a row that \<open>df.iterrows()\<close> yields, and the items that
  \<open>parse_as_df\<close> builds from the rows of the cleaned table, with the keyword arguments
  of the call \<open>Entry(...)\<close> as fields (\<open>fields\<close> is \<open>fields_raw\<close> here).
\<close>

definition to_dict :: "string list \<Rightarrow> 'c list \<Rightarrow> (string \<rightharpoonup> 'c)" where
  "to_dict labels cells = fold (\<lambda>(k, v) d. d(k \<mapsto> v)) (zip labels cells) Map.empty"

record 'v Entry =
  state_name :: string
  timestamp :: nat
  url :: string
  fields_raw :: "string \<rightharpoonup> 'v option"
  normalized_fields :: "string \<rightharpoonup> 'v option"

definition entries ::
  "string \<Rightarrow> nat \<Rightarrow> string \<Rightarrow> (string \<rightharpoonup> string) \<Rightarrow> 'v dataframe \<Rightarrow> 'v Entry list" where
  "entries name time response_url fields_dict df =
     map (\<lambda>r. \<lparr>state_name = name, timestamp = time, url = response_url,
               fields_raw = to_dict (columns df) (snd r),
               normalized_fields = get_normalized_fields fields_dict (to_dict (columns df) (snd r))\<rparr>)
       (rows df)"

definition example_config_row :: "(string \<times> string) list" where
  "example_config_row =
     [(''state_name'', ''Alabama''), (''format'', ''html''),
      (''company_field'', ''Company''), (''notice_date_field'', ''Date''),
      (''county_field'', ''County'')]"

subsection \<open>modules/datatodf.py: html_pandas and html\<close>

text \<open>
  A cell of the table that \<open>html\<close> builds is the text of a \<open>td\<close> element, the joined
  notice link, or the list of the remaining links of the row.
\<close>

datatype hval = Text string | Hrefs "string list"

text \<open>
  What lxml answers for a row and for a table: the \<open>string(.)\<close> values of the elements
  that \<open>.//td\<close> and \<open>.//th\<close> select, the values of \<open>.//*/@href\<close>, and the rows that
  \<open>.//body/tr\<close> and \<open>.//tr\<close> select.  Of a document the model holds the outcome of opening
  and parsing it, an error or the parsed tree, and the outcome of \<open>pd.read_html\<close>.  The
  tree is the function from the query of \<open>tree.xpath(search_str)\<close> to its outcome: the
  elements selected, or an error (\<open>AssertionError\<close> for every query when the tree has no
  root, as for an empty or blank file; \<open>XPathEvalError\<close> for a query that is no XPath
  expression).  The queries on the elements found are fixed expressions and do not raise.
\<close>

record tr_element =
  td_strings :: "string list"
  hrefs :: "string list"

record table_element =
  th_strings :: "string list"
  body_tr :: "tr_element list"
  all_tr :: "tr_element list"

record html_document =
  parsed :: "pyerror + (string \<Rightarrow> pyerror + table_element list)"
  read_html :: "pyerror + hval dataframe list"

text \<open>
  The keyword parameters of \<open>html\<close> (\<open>link_col\<close> is \<open>html_link_col\<close> here), and
  \<open>urllib.parse.urljoin\<close> as a parameter of the model.
\<close>

record html_params =
  base_url :: string
  use_pandas :: bool
  tag :: "string option"
  table_class :: "string option"
  html_link_col :: "int option"
  min_num_cols :: int
  use_unicode :: bool
  drop_first_row :: bool

definition html_defaults :: html_params where
  "html_defaults =
     \<lparr>base_url = '''', use_pandas = False, tag = None, table_class = None,
      html_link_col = None, min_num_cols = 1, use_unicode = False, drop_first_row = False\<rparr>"

text \<open>\<open>pd.concat(dfs)\<close>: the frames appended one after the other.\<close>

fun concat_outer :: "'v dataframe \<Rightarrow> 'v dataframe list \<Rightarrow> pyerror + 'v dataframe" where
  "concat_outer acc [] = Inr acc"
| "concat_outer acc (d # ds) =
     (case append_df acc d of Inl e \<Rightarrow> Inl e | Inr acc' \<Rightarrow> concat_outer acc' ds)"

definition html_pandas :: "html_document \<Rightarrow> pyerror + hval dataframe \<times> log_record list" where
  "html_pandas doc =
     (case read_html doc of
        Inl e \<Rightarrow>
          if e = XMLSyntaxError \<or> e = ValueError
          then Inr (empty_df, [Error (Read_html_failed e)])
          else Inl e
      | Inr dfs \<Rightarrow>
          if length dfs > 1 then
            (case concat_outer (hd dfs) (tl dfs) of
               Inl e \<Rightarrow> Inr (empty_df, [Error (Concat_failed e)])
             | Inr df \<Rightarrow> Inr (df, []))
          else if length dfs = 1 then Inr (hd dfs, [])
          else Inr (empty_df, [Error No_tables_in_url]))"

text \<open>
  A Python dictionary as the list of its items in insertion order: setting a key that is
  present replaces its value in place. \<open>dict(pairs)\<close> sets the pairs one after the other.
\<close>

definition dict_set :: "'k \<Rightarrow> 'v \<Rightarrow> ('k \<times> 'v) list \<Rightarrow> ('k \<times> 'v) list" where
  "dict_set k v d =
     (if k \<in> fst ` set d then map (\<lambda>kv. if fst kv = k then (k, v) else kv) d else d @ [(k, v)])"

definition dict :: "('k \<times> 'v) list \<Rightarrow> ('k \<times> 'v) list" where
  "dict kvs = fold (\<lambda>kv d. dict_set (fst kv) (snd kv) d) kvs []"

text \<open>
  \<open>df.append(fields, ignore_index=True)\<close> for a dictionary: the keys that are not yet
  column labels become columns after the present ones, in the dictionary's order (pandas
  1.4 and later, where \<open>append\<close> is a \<open>concat\<close> that does not sort; releases before sort
  them), null in the rows before; the new row holds the dictionary's value under each
  label, null where it has none; the rows are relabelled.
\<close>

definition append_dict :: "'v dataframe \<Rightarrow> (string \<times> 'v) list \<Rightarrow> 'v dataframe" where
  "append_dict df fields_dict =
     (let new = filter (\<lambda>k. k \<notin> set (columns df)) (map fst fields_dict);
          cols = columns df @ new
      in \<lparr>columns = cols,
          rows = reset_index (map (\<lambda>r. (fst r, snd r @ replicate (length new) None)) (rows df) @
                              [(0, map (map_of fields_dict) cols)])\<rparr>)"

definition search_str :: "html_params \<Rightarrow> string" where
  "search_str p =
     (case table_class p of
        Some c \<Rightarrow> ''//table[@class='' @ [CHR 0x22] @ c @ [CHR 0x22] @ '']''
      | None \<Rightarrow> ''//'' @ (case tag p of None \<Rightarrow> ''table'' | Some t \<Rightarrow> t))"

definition html_row ::
  "(string \<Rightarrow> string \<Rightarrow> string) \<Rightarrow> html_params \<Rightarrow> string list \<Rightarrow> tr_element \<Rightarrow>
   hval dataframe \<times> log_record list \<Rightarrow> hval dataframe \<times> log_record list" where
  "html_row urljoin p names row acc =
     (let td = get_text_of_matching_elements_lxml (td_strings row);
          fields_dict = dict (zip names (map Text td));
          (fields_dict, lg) =
            (case html_link_col p of
               None \<Rightarrow> (fields_dict, snd acc)
             | Some _ \<Rightarrow>
                 (case hrefs row of
                    [] \<Rightarrow> (fields_dict, snd acc @ [Warning No_link_in_row])
                  | h # hs \<Rightarrow>
                      (let d = dict_set ''Notice Link'' (Text (urljoin (base_url p) h)) fields_dict
                       in (if hs \<noteq> [] then dict_set ''Updated Notices'' (Hrefs hs) d else d,
                           snd acc))))
      in (append_dict (fst acc) fields_dict, lg))"

definition html_table ::
  "(string \<Rightarrow> string \<Rightarrow> string) \<Rightarrow> html_params \<Rightarrow> table_element \<Rightarrow>
   hval dataframe \<times> log_record list \<Rightarrow> hval dataframe \<times> log_record list" where
  "html_table urljoin p table acc =
     (let names = get_text_of_matching_elements_lxml (th_strings table);
          trs = (if body_tr table = [] then all_tr table else body_tr table)
      in if trs = [] then (fst acc, snd acc @ [Error No_table_rows])
         else (let trs = (if drop_first_row p then tl trs else trs);
                   (names, trs) =
                     (if names = [] \<and> trs \<noteq> []
                      then (get_text_of_matching_elements_lxml (td_strings (hd trs)), tl trs)
                      else (names, trs))
               in fold (html_row urljoin p names) trs acc))"

definition html ::
  "(string \<Rightarrow> string \<Rightarrow> string) \<Rightarrow> html_params \<Rightarrow> html_document \<Rightarrow>
   pyerror + hval dataframe \<times> log_record list" where
  "html urljoin p doc =
     (if use_pandas p then html_pandas doc
      else case parsed doc of
             Inl e \<Rightarrow> Inl e
           | Inr tree_xpath \<Rightarrow>
               (case tree_xpath (search_str p) of
                  Inl e \<Rightarrow> Inl e
                | Inr tables \<Rightarrow>
                    if tables \<noteq> [] then Inr (fold (html_table urljoin p) tables (empty_df, []))
                    else Inr (empty_df, [Error No_table_found])))"






text \<open>
  An empty or blank file: \<open>open\<close> and \<open>etree.parse\<close> return, the tree has no root and every
  \<open>tree.xpath\<close> raises \<open>AssertionError\<close>; \<open>pd.read_html\<close> raises \<open>XMLSyntaxError\<close> for it.
\<close>

definition blank_document :: html_document where
  "blank_document = \<lparr>parsed = Inr (\<lambda>q. Inl AssertionError), read_html = Inl XMLSyntaxError\<rparr>"





section \<open>Theorems\<close>

subsection \<open>to_bool\<close>

text \<open>
  C10.  \<open>to_bool\<close> returns a value for every input: \<open>True\<close> exactly when the lowercased
  \<open>str(x)\<close> is one of yes, y, true, t; \<open>False\<close> exactly when it is one of no, n, false, f;
  and \<open>None\<close> for every other input, among them the empty string, nan and none (and so the
  values \<open>NaN\<close> and \<open>None\<close> themselves).
\<close>

theorem to_bool_classifies:
  "(fst (to_bool x) = Some True \<longleftrightarrow> lower (str x) \<in> {''yes'', ''y'', ''true'', ''t''}) \<and>
   (fst (to_bool x) = Some False \<longleftrightarrow> lower (str x) \<in> {''no'', ''n'', ''false'', ''f''}) \<and>
   (fst (to_bool x) = None \<longleftrightarrow>
      lower (str x) \<notin> {''yes'', ''y'', ''true'', ''t'', ''no'', ''n'', ''false'', ''f''}) \<and>
   fst (to_bool (PyStr '''')) = None \<and>
   fst (to_bool (PyStr ''nan'')) = None \<and>
   fst (to_bool (PyStr ''none'')) = None \<and>
   fst (to_bool PyNaN) = None \<and>
   fst (to_bool PyNone) = None"
  by (simp add: to_bool_def Let_def lower_def lower_char_def)

subsection \<open>The Cleaner\<close>

lemma select_map: "select m (map f xs) = map f (select m xs)"
  by (simp add: select_def zip_map2 filter_map o_def case_prod_unfold)

lemma select_Nil [simp]: "select m [] = []" "select [] xs = []"
  by (simp_all add: select_def)

lemma select_Cons [simp]: "select (b # m) (x # xs) = (if b then x # select m xs else select m xs)"
  by (simp add: select_def)

lemma length_select: "length m = length xs \<Longrightarrow> length (select m xs) = length (filter id m)"
  by (induction m xs rule: list_induct2) auto

lemma set_select:
  "length m = length xs \<Longrightarrow> set (select m xs) = {xs ! i | i. i < length xs \<and> m ! i}"
  by (force simp: select_def set_zip)

lemma select_replicate_True: "length xs = n \<Longrightarrow> select (replicate n True) xs = xs"
  by (induction xs arbitrary: n) auto

lemma select_nth:
  assumes "length m = length xs" "k < length (select m xs)"
  shows "select m xs ! k = xs ! (select m [0..<length m] ! k)"
proof -
  have "select m xs = select m (map (\<lambda>i. xs ! i) [0..<length m])"
    using assms(1) by (simp add: map_nth)
  also have "\<dots> = map (\<lambda>i. xs ! i) (select m [0..<length m])"
    by (rule select_map)
  finally have eq: "select m xs = map (\<lambda>i. xs ! i) (select m [0..<length m])" .
  have "k < length (select m [0..<length m])"
    using assms by (simp add: length_select)
  then show ?thesis by (simp add: eq)
qed

lemma select_index:
  assumes "k < length (select m [0..<length m])"
  shows "select m [0..<length m] ! k < length m \<and> m ! (select m [0..<length m] ! k)"
proof -
  have "select m [0..<length m] ! k \<in> set (select m [0..<length m])"
    using assms by simp
  then show ?thesis by (auto simp: set_select)
qed

lemma select_select:
  "length m = length c \<Longrightarrow> length c = length xs \<Longrightarrow> (\<forall>i < length m. c ! i \<longrightarrow> m ! i) \<Longrightarrow>
   select (select m c) (select m xs) = select c xs"
proof (induction m c xs rule: list_induct3)
  case Nil
  then show ?case by simp
next
  case (Cons b m c cs x xs)
  have "\<forall>i < length m. cs ! i \<longrightarrow> m ! i"
    using Cons.prems by auto
  moreover have "c \<longrightarrow> b"
    using Cons.prems by auto
  ultimately show ?case using Cons.IH by auto
qed

lemma wf_take_rows: "wf_df df \<Longrightarrow> wf_df (take_rows keep df)"
  by (simp add: wf_df_def take_rows_def list_all_iff)

lemma wf_take_columns:
  "wf_df df \<Longrightarrow> length m = length (columns df) \<Longrightarrow> wf_df (take_columns m df)"
  by (simp add: wf_df_def take_columns_def list_all_iff length_select)

lemma wf_fillna: "wf_df df \<Longrightarrow> wf_df (fillna v df)"
  by (simp add: wf_df_def fillna_def list_all_iff)

lemma length_any_in_column [simp]: "length (any_in_column P df) = length (columns df)"
  by (simp add: any_in_column_def)

lemma any_in_column_take_rows:
  assumes "wf_df df"
    and "\<And>r c. r \<in> set (rows df) \<Longrightarrow> c \<in> set (snd r) \<Longrightarrow> P c \<Longrightarrow> keep r"
  shows "any_in_column P (take_rows keep df) = any_in_column P df"
proof -
  have "(\<exists>r \<in> set (filter keep (rows df)). P (snd r ! j)) \<longleftrightarrow> (\<exists>r \<in> set (rows df). P (snd r ! j))"
    if "j < length (columns df)" for j
  proof -
    have "keep r" if "r \<in> set (rows df)" "P (snd r ! j)" for r
    proof -
      have "j < length (snd r)"
        using assms(1) that(1) \<open>j < length (columns df)\<close> by (simp add: wf_df_def list_all_iff)
      then have "snd r ! j \<in> set (snd r)" by simp
      then show ?thesis using assms(2) that by blast
    qed
    then show ?thesis unfolding set_filter by blast
  qed
  then show ?thesis
    by (simp add: any_in_column_def take_rows_def)
qed

lemma any_in_column_fillna:
  assumes "wf_df df"
  shows "any_in_column P (fillna v df) = any_in_column (\<lambda>c. P (fill v c)) df"
proof -
  have "P (map (fill v) (snd r) ! j) = P (fill v (snd r ! j))"
    if "j < length (columns df)" "r \<in> set (rows df)" for j r
    using assms that by (simp add: wf_df_def list_all_iff)
  then show ?thesis
    by (simp add: any_in_column_def fillna_def)
qed

lemma any_in_column_take_columns:
  assumes "wf_df df" and len: "length m = length (columns df)"
  shows "any_in_column P (take_columns m df) = select m (any_in_column P df)"
proof (rule nth_equalityI)
  show "length (any_in_column P (take_columns m df)) = length (select m (any_in_column P df))"
    using len by (simp add: take_columns_def length_select)
next
  fix k
  assume "k < length (any_in_column P (take_columns m df))"
  then have k: "k < length (select m (columns df))"
    by (simp add: take_columns_def)
  then have k': "k < length (select m [0..<length m])"
    using len by (simp add: length_select)
  define i where "i = select m [0..<length m] ! k"
  have i: "i < length (columns df)"
    using select_index [OF k'] len by (simp add: i_def)
  have cell: "select m (snd r) ! k = snd r ! i" if "r \<in> set (rows df)" for r
  proof -
    have l: "length m = length (snd r)"
      using assms that by (simp add: wf_df_def list_all_iff)
    then have "k < length (select m (snd r))"
      using k len by (simp add: length_select)
    then show ?thesis
      using select_nth [OF l] by (simp add: i_def)
  qed
  have "any_in_column P (take_columns m df) ! k = (\<exists>r \<in> set (rows df). P (select m (snd r) ! k))"
    using k by (simp add: any_in_column_def take_columns_def)
  also have "\<dots> = (\<exists>r \<in> set (rows df). P (snd r ! i))"
    using cell by auto
  also have "\<dots> = any_in_column P df ! i"
    using i by (simp add: any_in_column_def)
  also have "\<dots> = select m (any_in_column P df) ! k"
  proof -
    have "k < length (select m (any_in_column P df))"
      using k len by (simp add: length_select)
    then show ?thesis
      using select_nth [of m "any_in_column P df" k] len by (simp add: i_def)
  qed
  finally show "any_in_column P (take_columns m df) ! k = select m (any_in_column P df) ! k" .
qed


lemma fill_has_text: "ne '''' (fill '''' c) \<longleftrightarrow> has_text c"
  by (cases c) (simp_all add: ne_def fill_def has_text_def)

lemma any_in_row_cleaned:
  assumes "length keep = length cs"
    and "\<And>j. j < length cs \<Longrightarrow> has_text (cs ! j) \<Longrightarrow> keep ! j"
  shows "any_in_row (ne '''') (i, select keep (map (fill '''') cs)) \<longleftrightarrow> (\<exists>c \<in> set cs. has_text c)"
proof
  assume "any_in_row (ne '''') (i, select keep (map (fill '''') cs))"
  then obtain c where c: "c \<in> set (select keep (map (fill '''') cs))" "ne '''' c"
    by (auto simp: any_in_row_def)
  from c(1) obtain j where "j < length cs" "c = fill '''' (cs ! j)"
    using assms(1) by (auto simp: set_select)
  then show "\<exists>c \<in> set cs. has_text c"
    using c(2) fill_has_text by auto
next
  assume "\<exists>c \<in> set cs. has_text c"
  then obtain j where j: "j < length cs" "has_text (cs ! j)"
    by (auto simp: in_set_conv_nth)
  then have "keep ! j" using assms(2) by blast
  then have "fill '''' (cs ! j) \<in> set (select keep (map (fill '''') cs))"
    using j(1) assms(1) by (auto simp: set_select intro!: exI [of _ j])
  then show "any_in_row (ne '''') (i, select keep (map (fill '''') cs))"
    using j(2) fill_has_text by (auto simp: any_in_row_def)
qed

lemma drop_empty_rows_cols_cleaned:
  assumes wf: "wf_df df"
  shows "drop_empty_rows_cols df = cleaned df"
proof -
  define keep where "keep = any_in_column has_text df"
  define df1 where "df1 = take_rows (any_in_row notna) df"
  define m2 where "m2 = any_in_column notna df1"
  define df2 where "df2 = take_columns m2 df1"
  define df3 where "df3 = fillna '''' df2"
  define m4 where "m4 = any_in_column (ne '''') df3"
  define df4 where "df4 = take_columns m4 df3"
  define g :: "int \<times> string option list \<Rightarrow> int \<times> string option list"
    where "g = (\<lambda>r. (fst r, select keep (map (fill '''') (snd r))))"
  have res: "drop_empty_rows_cols df = take_rows (any_in_row (ne '''')) df4"
    by (simp add: drop_empty_rows_cols_def Let_def dropna_def df1_def m2_def df2_def df3_def
        m4_def df4_def)
  have len: "length (snd r) = length (columns df)" if "r \<in> set (rows df)" for r
    using wf that by (simp add: wf_df_def list_all_iff)
  have wf1: "wf_df df1"
    unfolding df1_def using wf by (rule wf_take_rows)
  have cols1: "columns df1 = columns df"
    by (simp add: df1_def take_rows_def)
  have rows1: "rows df1 = filter (any_in_row notna) (rows df)"
    by (simp add: df1_def take_rows_def)
  have m2: "m2 = any_in_column notna df"
    unfolding m2_def df1_def
    by (rule any_in_column_take_rows [OF wf]) (auto simp: any_in_row_def)
  have len2: "length m2 = length (columns df1)"
    by (simp add: m2 cols1)
  have wf2: "wf_df df2"
    unfolding df2_def using wf1 len2 by (rule wf_take_columns)
  have keep1: "any_in_column has_text df1 = keep"
    unfolding keep_def df1_def
    by (rule any_in_column_take_rows [OF wf]) (auto simp: any_in_row_def has_text_def notna_def)
  have "m4 = any_in_column (\<lambda>c. ne '''' (fill '''' c)) df2"
    unfolding m4_def df3_def using wf2 by (rule any_in_column_fillna)
  also have "\<dots> = any_in_column has_text df2"
    by (simp add: fill_has_text)
  also have "\<dots> = select m2 (any_in_column has_text df1)"
    unfolding df2_def using wf1 len2 by (rule any_in_column_take_columns)
  finally have m4: "m4 = select m2 keep"
    by (simp add: keep1)
  have lenk: "length keep = length (columns df)"
    by (simp add: keep_def)
  have imp: "\<forall>i < length m2. keep ! i \<longrightarrow> m2 ! i"
    by (auto simp: m2 keep_def any_in_column_def has_text_def notna_def)
  have cols4: "columns df4 = select keep (columns df)"
    using select_select [of m2 keep "columns df"] imp lenk len2 cols1
    by (simp add: df4_def df3_def df2_def take_columns_def fillna_def m4)
  have "select m4 (map (fill '''') (select m2 (snd r))) = select keep (map (fill '''') (snd r))"
    if "r \<in> set (rows df)" for r
  proof -
    have "length keep = length (map (fill '''') (snd r))"
      using len [OF that] lenk by simp
    then show ?thesis
      using select_select [of m2 keep "map (fill '''') (snd r)"] imp lenk len2 cols1
      by (simp add: m4 select_map)
  qed
  then have rows4: "rows df4 = map g (rows df1)"
    by (simp add: df4_def df3_def df2_def take_columns_def fillna_def rows1 g_def)
  have row_keep: "any_in_row (ne '''') (g r) \<longleftrightarrow> (\<exists>c \<in> set (snd r). has_text c)"
    if "r \<in> set (rows df)" for r
  proof -
    have "keep ! j" if "j < length (snd r)" "has_text (snd r ! j)" for j
      using that \<open>r \<in> set (rows df)\<close> len [OF \<open>r \<in> set (rows df)\<close>]
      by (auto simp: keep_def any_in_column_def)
    then show ?thesis
      unfolding g_def using len [OF that] lenk by (intro any_in_row_cleaned) simp_all
  qed
  have "filter (any_in_row (ne '''')) (map g (rows df1)) =
        map g (filter (\<lambda>r. any_in_row (ne '''') (g r)) (rows df1))"
    by (simp add: filter_map o_def)
  also have "filter (\<lambda>r. any_in_row (ne '''') (g r)) (rows df1) =
        filter (any_in_row has_text) (rows df)"
    unfolding rows1 filter_filter
  proof (rule filter_cong [OF refl])
    fix r
    assume r: "r \<in> set (rows df)"
    have "any_in_row notna r" if "any_in_row has_text r"
      using that by (auto simp: any_in_row_def has_text_def notna_def)
    then show "(any_in_row notna r \<and> any_in_row (ne '''') (g r)) = any_in_row has_text r"
      using row_keep [OF r] unfolding any_in_row_def [of has_text] by blast
  qed
  finally have rows5: "rows (take_rows (any_in_row (ne '''')) df4) =
        map g (filter (any_in_row has_text) (rows df))"
    by (simp add: take_rows_def rows4)
  have cols5: "columns (take_rows (any_in_row (ne '''')) df4) = select keep (columns df)"
    by (simp add: take_rows_def cols4)
  show ?thesis
    unfolding res
    by (rule dataframe.equality)
       (simp_all add: rows5 cols5 cleaned_def keep_def g_def)
qed


lemma set_select_subset: "set (select m xs) \<subseteq> set xs"
  by (auto simp: select_def dest: set_zip_rightD)

lemma columns_cleaned: "columns (cleaned df) = select (any_in_column has_text df) (columns df)"
  by (simp add: cleaned_def)

lemma rows_cleaned:
  "rows (cleaned df) =
     map (\<lambda>r. (fst r, select (any_in_column has_text df) (map (fill '''') (snd r))))
       (filter (any_in_row has_text) (rows df))"
  by (simp add: cleaned_def)

lemma in_rows_cleanedE:
  assumes "r \<in> set (rows (cleaned df))"
  obtains r0 where "r0 \<in> set (rows df)" "any_in_row has_text r0"
    "r = (fst r0, select (any_in_column has_text df) (map (fill '''') (snd r0)))"
  using assms unfolding rows_cleaned set_map set_filter by blast

lemma wf_cleaned:
  assumes "wf_df df"
  shows "wf_df (cleaned df)"
  using assms by (simp add: cleaned_def wf_df_def list_all_iff length_select)

lemma cleaned_cells_filled:
  assumes "r \<in> set (rows (cleaned df))" "c \<in> set (snd r)"
  shows "c \<noteq> None"
proof -
  from assms(1) obtain r0 where
    "r = (fst r0, select (any_in_column has_text df) (map (fill '''') (snd r0)))"
    by (rule in_rows_cleanedE)
  then have "c \<in> set (map (fill '''') (snd r0))"
    using assms(2) set_select_subset by fastforce
  then obtain c0 where "c = fill '''' c0" by auto
  then show ?thesis by (cases c0) (simp_all add: fill_def)
qed

lemma keep_of_has_text:
  assumes "wf_df df" "r \<in> set (rows df)" "j < length (snd r)" "has_text (snd r ! j)"
  shows "any_in_column has_text df ! j"
proof -
  have "j < length (columns df)"
    using assms(1-3) by (simp add: wf_df_def list_all_iff)
  then have "any_in_column has_text df ! j = (\<exists>r \<in> set (rows df). has_text (snd r ! j))"
    by (simp add: any_in_column_def)
  then show ?thesis using assms(2,4) by blast
qed


lemma cleaned_rows_have_text:
  assumes wf: "wf_df df" and r: "r \<in> set (rows (cleaned df))"
  shows "any_in_row has_text r"
proof -
  from r obtain r0 where r0: "r0 \<in> set (rows df)" "any_in_row has_text r0"
    and eq: "r = (fst r0, select (any_in_column has_text df) (map (fill '''') (snd r0)))"
    by (rule in_rows_cleanedE)
  have len: "length (snd r0) = length (columns df)"
    using wf r0(1) by (simp add: wf_df_def list_all_iff)
  have "any_in_row (ne '''') r"
    unfolding eq
  proof (subst any_in_row_cleaned)
    show "length (any_in_column has_text df) = length (snd r0)"
      using len by simp
    show "any_in_column has_text df ! j" if "j < length (snd r0)" "has_text (snd r0 ! j)" for j
      using keep_of_has_text [OF wf r0(1) that] .
    show "\<exists>c \<in> set (snd r0). has_text c"
      using r0(2) by (simp add: any_in_row_def)
  qed
  then obtain c where c: "c \<in> set (snd r)" "ne '''' c"
    unfolding any_in_row_def by blast
  have "c \<noteq> None"
    using cleaned_cells_filled [OF r c(1)] .
  then have "has_text c"
    using c(2) by (simp add: has_text_def ne_def)
  then show ?thesis
    unfolding any_in_row_def using c(1) by blast
qed


lemma cleaned_columns_have_text:
  assumes wf: "wf_df df" and k: "k < length (columns (cleaned df))"
  shows "\<exists>r \<in> set (rows (cleaned df)). has_text (snd r ! k)"
proof -
  define keep where "keep = any_in_column has_text df"
  have lenk: "length keep = length (columns df)"
    by (simp add: keep_def)
  have k1: "k < length (select keep (columns df))"
    using k by (simp add: columns_cleaned keep_def)
  then have k2: "k < length (select keep [0..<length keep])"
    using lenk by (simp add: length_select)
  define i where "i = select keep [0..<length keep] ! k"
  have i: "i < length (columns df)" "keep ! i"
    using select_index [OF k2] lenk by (simp_all add: i_def)
  then have "\<exists>r \<in> set (rows df). has_text (snd r ! i)"
    by (simp add: keep_def any_in_column_def)
  then obtain r0 where r0: "r0 \<in> set (rows df)" "has_text (snd r0 ! i)"
    by blast
  have len: "length (snd r0) = length (columns df)"
    using wf r0(1) by (simp add: wf_df_def list_all_iff)
  then have "snd r0 ! i \<in> set (snd r0)"
    using i(1) by simp
  then have "any_in_row has_text r0"
    unfolding any_in_row_def using r0(2) by blast
  then have mem: "(fst r0, select keep (map (fill '''') (snd r0))) \<in> set (rows (cleaned df))"
    unfolding rows_cleaned keep_def set_map set_filter using r0(1) by blast
  have l2: "length keep = length (map (fill '''') (snd r0))"
    using len lenk by simp
  then have "k < length (select keep (map (fill '''') (snd r0)))"
    using k2 by (simp add: length_select)
  then have "select keep (map (fill '''') (snd r0)) ! k = map (fill '''') (snd r0) ! i"
    using select_nth [OF l2] by (simp add: i_def)
  also have "\<dots> = fill '''' (snd r0 ! i)"
    using i(1) len by simp
  also have "\<dots> = snd r0 ! i"
    using r0(2) by (cases "snd r0 ! i") (simp_all add: fill_def has_text_def)
  finally have "has_text (snd (fst r0, select keep (map (fill '''') (snd r0))) ! k)"
    using r0(2) by simp
  then show ?thesis
    using mem by blast
qed

lemma cleaned_fixpoint:
  assumes wf: "wf_df df"
    and filled: "\<And>r c. r \<in> set (rows df) \<Longrightarrow> c \<in> set (snd r) \<Longrightarrow> c \<noteq> None"
    and rws: "\<And>r. r \<in> set (rows df) \<Longrightarrow> any_in_row has_text r"
    and cls: "\<And>k. k < length (columns df) \<Longrightarrow> \<exists>r \<in> set (rows df). has_text (snd r ! k)"
  shows "cleaned df = df"
proof -
  have keep: "any_in_column has_text df = replicate (length (columns df)) True"
    using cls by (intro nth_equalityI) (simp_all add: any_in_column_def)
  have f: "filter (any_in_row has_text) (rows df) = rows df"
    using rws by (simp add: filter_id_conv)
  have "(fst r, select (replicate (length (columns df)) True) (map (fill '''') (snd r))) = r"
    if "r \<in> set (rows df)" for r
  proof -
    have "fill '''' c = c" if "c \<in> set (snd r)" for c
      using filled [OF \<open>r \<in> set (rows df)\<close> that] by (cases c) (simp_all add: fill_def)
    then have "map (fill '''') (snd r) = snd r"
      by (intro map_idI)
    moreover have "length (snd r) = length (columns df)"
      using wf that by (simp add: wf_df_def list_all_iff)
    ultimately show ?thesis
      by (simp add: select_replicate_True)
  qed
  then have "map (\<lambda>r. (fst r, select (replicate (length (columns df)) True) (map (fill '''') (snd r))))
      (rows df) = rows df"
    by (intro map_idI)
  then show ?thesis
    by (intro dataframe.equality) (simp_all add: cleaned_def keep f select_replicate_True)
qed

lemma cleaned_idem:
  assumes "wf_df df"
  shows "cleaned (cleaned df) = cleaned df"
proof (rule cleaned_fixpoint)
  show "wf_df (cleaned df)"
    using assms by (rule wf_cleaned)
  show "c \<noteq> None" if "r \<in> set (rows (cleaned df))" "c \<in> set (snd r)" for r c
    using that by (rule cleaned_cells_filled)
  show "any_in_row has_text r" if "r \<in> set (rows (cleaned df))" for r
    using assms that by (rule cleaned_rows_have_text)
  show "\<exists>r \<in> set (rows (cleaned df)). has_text (snd r ! k)" if "k < length (columns (cleaned df))" for k
    using assms that by (rule cleaned_columns_have_text)
qed

text \<open>
  C1.  The Cleaner is idempotent: on every Raw Table (a rectangular frame of text cells and
  nulls), cleaning the cleaned table gives the cleaned table.
\<close>

theorem drop_empty_rows_cols_idempotent:
  assumes "wf_df df"
  shows "drop_empty_rows_cols (drop_empty_rows_cols df) = drop_empty_rows_cols df"
  using assms
  by (simp add: drop_empty_rows_cols_cleaned wf_cleaned cleaned_idem)

theorem drop_empty_rows_cols_idempotent_witness:
  "wf_df example_raw_table \<and>
   drop_empty_rows_cols example_raw_table =
     \<lparr>columns = [''Company'', ''Date''],
      rows = [(0, [Some ''Acme'', Some '''']), (2, [Some '''', Some ''2020-01-01''])]\<rparr> \<and>
   drop_empty_rows_cols (drop_empty_rows_cols example_raw_table) =
     drop_empty_rows_cols example_raw_table"
proof -
  have wf: "wf_df example_raw_table"
    by (simp add: wf_df_def example_raw_table_def)
  have "drop_empty_rows_cols example_raw_table =
     \<lparr>columns = [''Company'', ''Date''],
      rows = [(0, [Some ''Acme'', Some '''']), (2, [Some '''', Some ''2020-01-01''])]\<rparr>"
    by code_simp
  then show ?thesis
    using wf drop_empty_rows_cols_idempotent [OF wf] by simp
qed

text \<open>
  C2.  On every Raw Table the Cleaner removes exactly the rows and the columns whose cells
  are all empty (null or the empty string): the result is the input restricted to the
  columns and the rows that hold a cell with text, each retained cell unchanged but for a
  null, which reads as the empty string; and every row and every column of the result
  holds a cell with text.
\<close>

theorem drop_empty_rows_cols_exact:
  assumes "wf_df df"
  shows "drop_empty_rows_cols df =
           \<lparr>columns = select (any_in_column has_text df) (columns df),
            rows = map (\<lambda>r. (fst r, select (any_in_column has_text df) (map (fill '''') (snd r))))
                     (filter (any_in_row has_text) (rows df))\<rparr> \<and>
         (\<forall>c :: string option. c \<noteq> None \<longrightarrow> fill '''' c = c) \<and>
         (\<forall>r \<in> set (rows (drop_empty_rows_cols df)). \<exists>c \<in> set (snd r). has_text c) \<and>
         (\<forall>k < length (columns (drop_empty_rows_cols df)).
            \<exists>r \<in> set (rows (drop_empty_rows_cols df)). has_text (snd r ! k))"
proof (intro conjI allI impI ballI)
  show "drop_empty_rows_cols df =
           \<lparr>columns = select (any_in_column has_text df) (columns df),
            rows = map (\<lambda>r. (fst r, select (any_in_column has_text df) (map (fill '''') (snd r))))
                     (filter (any_in_row has_text) (rows df))\<rparr>"
    using assms by (simp add: drop_empty_rows_cols_cleaned cleaned_def)
  show "fill '''' c = c" if "c \<noteq> None" for c :: "string option"
    using that by (cases c) (simp_all add: fill_def)
  show "\<exists>c \<in> set (snd r). has_text c" if "r \<in> set (rows (drop_empty_rows_cols df))" for r
    using cleaned_rows_have_text [OF assms, of r] that assms
    by (simp add: drop_empty_rows_cols_cleaned any_in_row_def)
  show "\<exists>r \<in> set (rows (drop_empty_rows_cols df)). has_text (snd r ! k)"
    if "k < length (columns (drop_empty_rows_cols df))" for k
    using cleaned_columns_have_text [OF assms, of k] that assms
    by (simp add: drop_empty_rows_cols_cleaned)
qed

theorem drop_empty_rows_cols_exact_witness:
  "wf_df example_raw_table \<and>
   any_in_column has_text example_raw_table = [True, False, True] \<and>
   filter (any_in_row has_text) (rows example_raw_table) =
     [(0, [Some ''Acme'', None, Some '''']), (2, [Some '''', None, Some ''2020-01-01''])] \<and>
   drop_empty_rows_cols example_raw_table =
     \<lparr>columns = [''Company'', ''Date''],
      rows = [(0, [Some ''Acme'', Some '''']), (2, [Some '''', Some ''2020-01-01''])]\<rparr>"
proof -
  have wf: "wf_df example_raw_table"
    by (simp add: wf_df_def example_raw_table_def)
  have m: "any_in_column has_text example_raw_table = [True, False, True]"
    by code_simp
  have f: "filter (any_in_row has_text) (rows example_raw_table) =
     [(0, [Some ''Acme'', None, Some '''']), (2, [Some '''', None, Some ''2020-01-01''])]"
    by code_simp
  have "drop_empty_rows_cols example_raw_table =
     \<lparr>columns = select [True, False, True] (columns example_raw_table),
      rows = map (\<lambda>r. (fst r, select [True, False, True] (map (fill '''') (snd r))))
               [(0, [Some ''Acme'', None, Some '''']), (2, [Some '''', None, Some ''2020-01-01''])]\<rparr>"
    using drop_empty_rows_cols_exact [OF wf, THEN conjunct1] unfolding m f .
  then show ?thesis
    using wf m f by (simp add: example_raw_table_def select_def fill_def)
qed

subsection \<open>PDF extraction\<close>



lemma length_grid_rows [simp]: "length (grid_rows g) = length g"
  by (simp add: grid_rows_def)

lemma grid_rows_eq_Nil [simp]: "grid_rows g = [] \<longleftrightarrow> g = []"
  by (simp add: grid_rows_def)


















subsection \<open>Spreadsheet extraction\<close>

lemma append_df_empty: "append_df empty_df df = Inr \<lparr>columns = columns df, rows = rows df\<rparr>"
  by (simp add: append_df_def empty_df_def conform_def Let_def reindex_def)

lemma list_of_length_5:
  assumes "length xs = 5"
  obtains a b c d e where "xs = [a, b, c, d, e]"
  using assms by (auto simp: length_Suc_conv numeral_eq_Suc)

lemma enumerate_rows_5:
  "enumerate_rows [a, b, c, d, e] = [(0, a), (1, b), (2, c), (3, d), (4, e)]"
  by (simp add: enumerate_rows_def upt_conv_Cons del: upt_Suc)

text \<open>
  C6, amended.  For every workbook of a single worksheet with 5 rows, extraction with
  \<open>skip_header=1\<close> and \<open>drop_footer=1\<close> yields exactly 2 data rows, the third and the fourth
  row of the sheet: the row before the column names, the row of the column names (the
  second) and the last row are excluded.
\<close>

theorem excel_five_rows:
  assumes "length (ws_values ws) = 5" and "max_row ws = 5"
  shows "\<exists>df lg.
     excel \<lparr>link_col = None, skip_header = Some 1, drop_footer = Some 1, sheets_to_use = None\<rparr>
       [(name, ws)] = Inr (df, lg) \<and>
     length (rows df) = 2 \<and>
     rows df = [(2, ws_values ws ! 2), (3, ws_values ws ! 3)] \<and>
     columns df = map (\<lambda>s. whitespace_to_singlespace (str_cell s)) (ws_values ws ! 1)"
proof -
  obtain a b c d e where v: "ws_values ws = [a, b, c, d, e]"
    using assms(1) by (rule list_of_length_5)
  have r: "py_range 0 2 = [0, 1]" "py_range 4 5 = [4]"
    by (simp_all add: py_range_def upto.simps)
  have "excel_sheet 1 1 [] ws =
      Inr (\<lparr>columns = map (\<lambda>s. whitespace_to_singlespace (str_cell s)) b, rows = [(2, c), (3, d)]\<rparr>, [])"
    by (simp add: excel_sheet_def v assms(2) py_index_def r enumerate_rows_5 drop_labels_def)
  then show ?thesis
    by (simp add: excel_def link_columns_def append_df_empty v)
qed

theorem excel_five_rows_witness:
  "length (ws_values example_sheet) = 5 \<and> max_row example_sheet = 5 \<and>
   excel \<lparr>link_col = None, skip_header = Some 1, drop_footer = Some 1, sheets_to_use = None\<rparr>
       [(''Sheet1'', example_sheet)] =
     Inr (\<lparr>columns = [''Company'', ''Notice''],
           rows = [(2, [Some ''Acme'', Some ''letter'']), (3, [Some ''Bolt'', Some ''letter''])]\<rparr>,
          [])"
proof -
  have a: "length (ws_values example_sheet) = 5" and b: "max_row example_sheet = 5"
    by (simp_all add: example_sheet_def)
  obtain df lg where
    e: "excel \<lparr>link_col = None, skip_header = Some 1, drop_footer = Some 1, sheets_to_use = None\<rparr>
       [(''Sheet1'', example_sheet)] = Inr (df, lg)"
    and "length (rows df) = 2"
    using excel_five_rows [OF a b, of "''Sheet1''"] by blast
  have "excel \<lparr>link_col = None, skip_header = Some 1, drop_footer = Some 1, sheets_to_use = None\<rparr>
       [(''Sheet1'', example_sheet)] =
     Inr (\<lparr>columns = [''Company'', ''Notice''],
           rows = [(2, [Some ''Acme'', Some ''letter'']), (3, [Some ''Bolt'', Some ''letter''])]\<rparr>,
          [])"
    by code_simp
  then show ?thesis
    using a b by simp
qed

theorem excel_five_rows_not_three:
  "\<not> (\<forall>ws name. length (ws_values ws) = 5 \<and> max_row ws = 5 \<longrightarrow>
        (\<exists>df lg. excel \<lparr>link_col = None, skip_header = Some 1, drop_footer = Some 1,
                         sheets_to_use = None\<rparr> [(name, ws)] = Inr (df, lg) \<and>
                  length (rows df) = 3))"
proof
  assume "\<forall>ws name. length (ws_values ws) = 5 \<and> max_row ws = 5 \<longrightarrow>
        (\<exists>df lg. excel \<lparr>link_col = None, skip_header = Some 1, drop_footer = Some 1,
                         sheets_to_use = None\<rparr> [(name, ws)] = Inr (df, lg) \<and>
                  length (rows df) = 3)"
  moreover have "length (ws_values example_sheet) = 5 \<and> max_row example_sheet = 5"
    by (simp add: example_sheet_def)
  ultimately obtain df lg where
    e: "excel \<lparr>link_col = None, skip_header = Some 1, drop_footer = Some 1, sheets_to_use = None\<rparr>
       [(''Sheet1'', example_sheet)] = Inr (df, lg)"
    and three: "length (rows df) = 3"
    by blast
  have "excel \<lparr>link_col = None, skip_header = Some 1, drop_footer = Some 1, sheets_to_use = None\<rparr>
       [(''Sheet1'', example_sheet)] =
     Inr (\<lparr>columns = [''Company'', ''Notice''],
           rows = [(2, [Some ''Acme'', Some ''letter'']), (3, [Some ''Bolt'', Some ''letter''])]\<rparr>,
          [])"
    by code_simp
  with e three show False by auto
qed

lemma cell_hyperlink_target_col:
  "cell_hyperlink_target ws [(''row'', r), (''col'', c)] = Inl TypeError"
  by (simp add: cell_hyperlink_target_def)

lemma fold_links_empty:
  "fst (fold (\<lambda>row_index (links, lg).
             case cell_hyperlink_target ws [(''row'', row_index), (''col'', col)] of
               Inr link \<Rightarrow> (links @ [link], lg)
             | Inl e \<Rightarrow> (links @ [''''], lg @ [Warning (No_link_in_column col)])) is (links, lg)) =
   links @ replicate (length is) ''''"
  by (induction "is" arbitrary: links lg)
     (simp_all add: cell_hyperlink_target_col replicate_app_Cons_same)

text \<open>
  C9.  The link column that \<open>excel\<close> adds holds the empty string in every row, whatever
  hyperlinks the worksheet has: the call \<open>ws.cell(row=row_index, col=col)\<close> raises a
  \<open>TypeError\<close> for its keyword \<open>col\<close>, which the surrounding \<open>try\<close> turns into the empty
  string.  On the sheet below the cell under \<open>Notice\<close> in the data row has a hyperlink,
  and the column \<open>Notice Link\<close> is empty.
\<close>

theorem excel_link_column_is_empty:
  "fst (sheet_links ws n_skip n_drop col) =
     replicate (length (py_range (min_row ws + n_skip) (max_row ws - n_drop))) '''' \<and>
   map_of (hyperlinks example_link_sheet) (2, 2) = Some ''http://example.org/acme.pdf'' \<and>
   excel \<lparr>link_col = Some (Col 1), skip_header = None, drop_footer = None, sheets_to_use = None\<rparr>
       [(''Sheet1'', example_link_sheet)] =
     Inr (\<lparr>columns = [''Company'', ''Notice'', ''Notice Link''],
           rows = [(1, [Some ''Acme'', Some ''letter'', Some ''''])]\<rparr>,
          [Warning (No_link_in_column 1)])"
proof (intro conjI)
  show "fst (sheet_links ws n_skip n_drop col) =
     replicate (length (py_range (min_row ws + n_skip) (max_row ws - n_drop))) ''''"
    by (simp add: sheet_links_def fold_links_empty)
  show "map_of (hyperlinks example_link_sheet) (2, 2) = Some ''http://example.org/acme.pdf''"
    by (simp add: example_link_sheet_def)
  show "excel \<lparr>link_col = Some (Col 1), skip_header = None, drop_footer = None, sheets_to_use = None\<rparr>
       [(''Sheet1'', example_link_sheet)] =
     Inr (\<lparr>columns = [''Company'', ''Notice'', ''Notice Link''],
           rows = [(1, [Some ''Acme'', Some ''letter'', Some ''''])]\<rparr>,
          [Warning (No_link_in_column 1)])"
    by code_simp
qed

subsection \<open>Field normalization\<close>

lemma dom_fold_fields:
  "dom (fold (\<lambda>(key, value) d.
               if endswith key ''_field'' then d(upper (remove_all ''_field'' key) \<mapsto> value) else d)
          row d0) =
   dom d0 \<union> (\<lambda>key. upper (remove_all ''_field'' key)) ` {key \<in> fst ` set row. endswith key ''_field''}"
  by (induction row arbitrary: d0) (auto split: if_splits)

lemma dom_FIELDS:
  "dom (FIELDS row) =
   (\<lambda>key. upper (remove_all ''_field'' key)) ` {key \<in> fst ` set row. endswith key ''_field''}"
  by (simp add: FIELDS_def dom_fold_fields)

lemma dom_get_normalized_fields: "dom (get_normalized_fields m row) \<subseteq> dom m"
  by (auto simp: get_normalized_fields_def split: option.splits)

text \<open>
  C3.  The keys of a Normalized Record are canonical names of the mapping: for every
  mapping \<open>m\<close> and row, in particular for the mapping that \<open>StateConfig\<close> builds from the
  configuration columns ending in \<open>_field\<close> (whose keys are those column names without
  \<open>_field\<close>, in upper case), and for the \<open>normalized_fields\<close> of every item built from a
  table.
\<close>

theorem normalized_keys_canonical:
  "dom (get_normalized_fields m row) \<subseteq> dom m \<and>
   dom (get_normalized_fields (FIELDS cfg) row) \<subseteq>
     (\<lambda>key. upper (remove_all ''_field'' key)) ` {key \<in> fst ` set cfg. endswith key ''_field''} \<and>
   (\<forall>e \<in> set (entries name time response_url (FIELDS cfg) df).
      dom (normalized_fields e) \<subseteq> dom (FIELDS cfg))"
proof (intro conjI ballI)
  show "dom (get_normalized_fields m row) \<subseteq> dom m"
    by (rule dom_get_normalized_fields)
  show "dom (get_normalized_fields (FIELDS cfg) row) \<subseteq>
     (\<lambda>key. upper (remove_all ''_field'' key)) ` {key \<in> fst ` set cfg. endswith key ''_field''}"
    using dom_get_normalized_fields [of "FIELDS cfg" row] by (simp only: dom_FIELDS)
  show "dom (normalized_fields e) \<subseteq> dom (FIELDS cfg)"
    if "e \<in> set (entries name time response_url (FIELDS cfg) df)" for e
  proof -
    from that obtain r where "normalized_fields e =
        get_normalized_fields (FIELDS cfg) (to_dict (columns df) (snd r))"
      by (auto simp: entries_def)
    then show ?thesis
      by (simp add: dom_get_normalized_fields)
  qed
qed

theorem normalized_keys_canonical_witness:
  "entries ''Alabama'' 0 ''http://example.org'' (FIELDS example_config_row)
       (drop_empty_rows_cols example_raw_table) \<noteq> [] \<and>
   dom (normalized_fields (hd (entries ''Alabama'' 0 ''http://example.org''
       (FIELDS example_config_row) (drop_empty_rows_cols example_raw_table)))) \<subseteq>
     dom (FIELDS example_config_row) \<and>
   FIELDS example_config_row ''COMPANY'' = Some ''Company'' \<and>
   FIELDS example_config_row ''NOTICE_DATE'' = Some ''Date'' \<and>
   FIELDS example_config_row ''COUNTY'' = Some ''County'' \<and>
   FIELDS example_config_row ''STATE_NAME'' = None \<and>
   map (\<lambda>e. map (normalized_fields e) [''COMPANY'', ''NOTICE_DATE'', ''COUNTY''])
     (entries ''Alabama'' 0 ''http://example.org'' (FIELDS example_config_row)
       (drop_empty_rows_cols example_raw_table)) =
     [[Some (Some ''Acme''), Some (Some ''''), None],
      [Some (Some ''''), Some (Some ''2020-01-01''), None]]"
  (is "?es \<noteq> [] \<and> ?sub \<and> ?f1 \<and> ?f2 \<and> ?f3 \<and> ?f4 \<and> ?v")
proof -
  have "rows (drop_empty_rows_cols example_raw_table) \<noteq> []"
    by code_simp
  then have ne: "?es \<noteq> []"
    by (simp add: entries_def)
  then have mem: "hd ?es \<in> set ?es"
    by (rule hd_in_set)
  have sub: ?sub
    by (rule normalized_keys_canonical [where cfg = example_config_row and name = "''Alabama''"
        and time = 0 and response_url = "''http://example.org''"
        and df = "drop_empty_rows_cols example_raw_table",
        THEN conjunct2, THEN conjunct2, THEN bspec, OF mem])
  have f1: ?f1 by code_simp
  have f2: ?f2 by code_simp
  have f3: ?f3 by code_simp
  have f4: ?f4 by code_simp
  have v: ?v by code_simp
  show ?thesis
    by (intro conjI) (rule ne sub f1 f2 f3 f4 v)+
qed

text \<open>
  C4.  A mapping entry whose raw name is not a key of the row is skipped: the Normalized
  Record has no entry under its canonical name, neither a value nor a null placeholder.
\<close>

theorem missing_raw_field_skipped:
  assumes "m canonical = Some raw" and "raw \<notin> dom row"
  shows "canonical \<notin> dom (get_normalized_fields m row) \<and>
         get_normalized_fields m row canonical = None \<and>
         get_normalized_fields m row canonical \<noteq> Some None"
  using assms by (auto simp: get_normalized_fields_def)

theorem missing_raw_field_skipped_witness:
  "FIELDS example_config_row ''COUNTY'' = Some ''County'' \<and>
   ''County'' \<notin> dom (to_dict [''Company'', ''Date''] [Some ''Acme'', Some '''']) \<and>
   ''COUNTY'' \<notin> dom (get_normalized_fields (FIELDS example_config_row)
                        (to_dict [''Company'', ''Date''] [Some ''Acme'', Some ''''])) \<and>
   get_normalized_fields (FIELDS example_config_row)
     (to_dict [''Company'', ''Date''] [Some ''Acme'', Some '''']) ''COMPANY'' = Some (Some ''Acme'')"
  (is "?a \<and> ?b \<and> ?c \<and> ?d")
proof -
  have a: ?a
    by code_simp
  have b: ?b
    by (simp add: to_dict_def)
  have c: ?c
    using missing_raw_field_skipped [where m = "FIELDS example_config_row"
        and canonical = "''COUNTY''" and raw = "''County''"
        and row = "to_dict [''Company'', ''Date''] [Some ''Acme'', Some '''']", OF a b]
    by (rule conjunct1)
  have d: ?d
    by code_simp
  show ?thesis
    by (intro conjI) (rule a b c d)+
qed

subsection \<open>HTML extraction\<close>












lemma set_unique [simp]: "set (unique xs) = set xs"
  by (simp add: unique_def)

lemma distinct_unique [simp]: "distinct (unique xs)"
  by (simp add: unique_def)













text \<open>
  C8.  On an empty or blank file, which \<open>open\<close> and \<open>etree.parse\<close> accept, \<open>html\<close> raises the
  \<open>AssertionError\<close> of \<open>tree.xpath\<close> to its caller, whatever its other parameters: there
  is no handler around the query.  For the same file \<open>html_pandas\<close>, and \<open>html\<close> with
  \<open>use_pandas\<close>, catches the error of \<open>pd.read_html\<close>, logs it and returns the empty table.
\<close>

theorem html_raises_on_blank_document:
  "html urljoin (p\<lparr>use_pandas := False\<rparr>) blank_document = Inl AssertionError \<and>
   html urljoin html_defaults blank_document = Inl AssertionError \<and>
   html_pandas blank_document = Inr (empty_df, [Error (Read_html_failed XMLSyntaxError)]) \<and>
   html urljoin (p\<lparr>use_pandas := True\<rparr>) blank_document =
     Inr (empty_df, [Error (Read_html_failed XMLSyntaxError)])"
  by (simp add: html_def html_pandas_def blank_document_def html_defaults_def)

end
